theory Spec2Isabelle
  imports Complex_Main "HOL-Library.Multiset" "HOL-Library.Product_Lexorder"
begin

section \<open>NumPy float64 values\<close>

text \<open>
  The script \<^verbatim>\<open>scripts/ranking_system_concept.py\<close> computes on NumPy float64 scalars and
  arrays. A float64 value is modelled as a real number or one of the three IEEE 754 special
  values. Arithmetic on finite values is exact (rounding is not modelled, and neither is
  the overflow of \<open>+\<close>, \<open>-\<close>, \<open>*\<close> and \<open>/\<close> at about \<open>1.8e308\<close>); the special values follow
  IEEE 754 as NumPy applies it: under NumPy's default error state a division by zero
  and an invalid operation give a warning and \<open>inf\<close> or \<open>nan\<close>, never an exception.
  The sign of zero is not modelled: every zero is \<open>+0.0\<close>, which is what the divisors of
  the script can be (an integer constant, or a sum of non-negative weights).
\<close>

datatype npfloat = Fin real | PInf | NInf | NaN

fun is_neg :: "npfloat \<Rightarrow> bool" where
  "is_neg (Fin x) = (x < 0)"
| "is_neg NInf = True"
| "is_neg PInf = False"
| "is_neg NaN = False"

fun signed_inf :: "bool \<Rightarrow> npfloat" where
  "signed_inf True = NInf"
| "signed_inf False = PInf"

text \<open>
  The operators of the script on float64 values. A comparison with \<open>nan\<close> is false, so
  \<open>\<le>\<close> and \<open><\<close> are not an order on \<open>npfloat\<close>.
\<close>

instantiation npfloat :: "{plus, uminus, minus, times, divide, inverse, ord}"
begin

fun plus_npfloat :: "npfloat \<Rightarrow> npfloat \<Rightarrow> npfloat" where
  "plus_npfloat NaN b = NaN"
| "plus_npfloat a NaN = NaN"
| "plus_npfloat (Fin x) (Fin y) = Fin (x + y)"
| "plus_npfloat PInf NInf = NaN"
| "plus_npfloat NInf PInf = NaN"
| "plus_npfloat PInf b = PInf"
| "plus_npfloat NInf b = NInf"
| "plus_npfloat (Fin x) b = b"

fun uminus_npfloat :: "npfloat \<Rightarrow> npfloat" where
  "uminus_npfloat (Fin x) = Fin (- x)"
| "uminus_npfloat PInf = NInf"
| "uminus_npfloat NInf = PInf"
| "uminus_npfloat NaN = NaN"

definition minus_npfloat :: "npfloat \<Rightarrow> npfloat \<Rightarrow> npfloat" where
  "minus_npfloat a b = a + (- b)"

fun times_npfloat :: "npfloat \<Rightarrow> npfloat \<Rightarrow> npfloat" where
  "times_npfloat NaN b = NaN"
| "times_npfloat a NaN = NaN"
| "times_npfloat (Fin x) (Fin y) = Fin (x * y)"
| "times_npfloat a b =
     (if a = Fin 0 \<or> b = Fin 0 then NaN else signed_inf (is_neg a \<noteq> is_neg b))"

fun divide_npfloat :: "npfloat \<Rightarrow> npfloat \<Rightarrow> npfloat" where
  "divide_npfloat NaN b = NaN"
| "divide_npfloat a NaN = NaN"
| "divide_npfloat (Fin x) (Fin y) =
     (if y \<noteq> 0 then Fin (x / y)
      else if x = 0 then NaN
      else signed_inf (x < 0))"
| "divide_npfloat (Fin x) b = Fin 0"
| "divide_npfloat a (Fin y) = signed_inf (is_neg a \<noteq> (y < 0))"
| "divide_npfloat a b = NaN"

definition inverse_npfloat :: "npfloat \<Rightarrow> npfloat" where
  "inverse_npfloat a = divide (Fin 1) a"

fun less_npfloat :: "npfloat \<Rightarrow> npfloat \<Rightarrow> bool" where
  "less_npfloat NaN b = False"
| "less_npfloat a NaN = False"
| "less_npfloat (Fin x) (Fin y) = (x < y)"
| "less_npfloat a NInf = False"
| "less_npfloat PInf b = False"
| "less_npfloat a b = True"

fun less_eq_npfloat :: "npfloat \<Rightarrow> npfloat \<Rightarrow> bool" where
  "less_eq_npfloat NaN b = False"
| "less_eq_npfloat a NaN = False"
| "less_eq_npfloat (Fin x) (Fin y) = (x \<le> y)"
| "less_eq_npfloat NInf b = True"
| "less_eq_npfloat a PInf = True"
| "less_eq_npfloat a b = False"

instance ..

end

text \<open>
  \<^verbatim>\<open>np.exp\<close>. Above \<open>ln\<close> of the largest float64, about 709.78, the result overflows
  to \<open>inf\<close>; below \<open>ln (2 ^ -1075)\<close>, about -745.13, it rounds to zero. In between the
  model returns the exact exponential.
\<close>

definition EXP_OVERFLOW :: real where
  "EXP_OVERFLOW = 709.782712893384"

definition EXP_UNDERFLOW :: real where
  "EXP_UNDERFLOW = - 745.1332191019412"

fun np_exp :: "npfloat \<Rightarrow> npfloat" where
  "np_exp (Fin x) =
     (if EXP_OVERFLOW < x then PInf
      else if x < EXP_UNDERFLOW then Fin 0
      else Fin (exp x))"
| "np_exp PInf = PInf"
| "np_exp NInf = Fin 0"
| "np_exp NaN = NaN"

section \<open>Configuration\<close>

text \<open>The module-level constants of the script, lines 12 to 27.\<close>

record config =
  players :: nat
  games_played_per_person :: nat
  K_BT :: real
  tightness :: real
  WIN_GAIN :: real
  LOSS_PENALTY :: real
  TARGET_MEAN :: real
  TARGET_STD :: real
  FADE_WIDTH :: real
  SIGMA_MATCH :: real

definition default_config :: config where
  "default_config =
     \<lparr> players = 100, games_played_per_person = 100,
       K_BT = 0.05, tightness = 2.0,
       WIN_GAIN = 35, LOSS_PENALTY = 25,
       TARGET_MEAN = 1500, TARGET_STD = 430, FADE_WIDTH = 300,
       SIGMA_MATCH = 0.4 \<rparr>"

section \<open>Bradley-Terry update\<close>

text \<open>
  \<^verbatim>\<open>
  def bt_update(a, b, outcome, K=0.05):
      p = np.exp(a) / (np.exp(a) + np.exp(b))
      delta = K * (outcome - p)
      return a + delta, b - delta
  \<close>
\<close>

definition bt_update :: "npfloat \<Rightarrow> npfloat \<Rightarrow> npfloat \<Rightarrow> npfloat \<Rightarrow> npfloat \<times> npfloat" where
  "bt_update a b outcome K =
     (let p = np_exp a / (np_exp a + np_exp b);
          delta = K * (outcome - p)
      in (a + delta, b - delta))"

datatype error = IndexError | ValueError

text \<open>
  The call sites of the simulation loop, lines 93 to 96: the first argument is always the
  winner and the outcome is always 1. Reading \<^verbatim>\<open>theta[i]\<close> out of range raises.
  \<^verbatim>\<open>
  if i_wins:
      theta[i], theta[j] = bt_update(theta[i], theta[j], 1, K_BT)
  else:
      theta[j], theta[i] = bt_update(theta[j], theta[i], 1, K_BT)
  \<close>
\<close>

definition update_theta ::
  "config \<Rightarrow> npfloat list \<Rightarrow> nat \<Rightarrow> nat \<Rightarrow> bool \<Rightarrow> error + npfloat list" where
  "update_theta cfg theta i j i_wins =
     (if length theta \<le> i \<or> length theta \<le> j then Inl IndexError
      else if i_wins then
        (case bt_update (theta ! i) (theta ! j) (Fin 1) (Fin (K_BT cfg)) of
           (ti, tj) \<Rightarrow> Inr (theta[i := ti, j := tj]))
      else
        (case bt_update (theta ! j) (theta ! i) (Fin 1) (Fin (K_BT cfg)) of
           (tj, ti) \<Rightarrow> Inr (theta[j := tj, i := ti])))"


text \<open>The strengths at which neither \<^verbatim>\<open>np.exp\<close> of \<open>bt_update\<close> leaves the float64 range.\<close>

definition in_exp_range :: "real \<Rightarrow> bool" where
  "in_exp_range x = (EXP_UNDERFLOW \<le> x \<and> x \<le> EXP_OVERFLOW)"

section \<open>Target trophies\<close>

text \<open>
  \<^verbatim>\<open>np.argsort\<close>: the indices that sort the array. NumPy orders float64 values with \<open>nan\<close>
  last; \<open>np_key\<close> is that order. The sort is the insertion sort of the HOL library, which
  is stable; NumPy's default sort promises a sorting permutation only, and the properties
  below of \<open>ranks\<close> use no more than that.
\<close>

fun np_key :: "npfloat \<Rightarrow> nat \<times> real" where
  "np_key NInf = (0, 0)"
| "np_key (Fin x) = (1, x)"
| "np_key PInf = (2, 0)"
| "np_key NaN = (3, 0)"

definition argsort :: "('a \<Rightarrow> 'k::linorder) \<Rightarrow> 'a list \<Rightarrow> nat list" where
  "argsort key xs = sort_key (\<lambda>i. key (xs ! i)) [0..<length xs]"

text \<open>
  \<^verbatim>\<open>scipy.stats.norm.ppf\<close>, the quantile function of the standard Normal distribution.
  Its values inside \<open>(0,1)\<close> are a parameter \<open>ppf\<close> of the model; at the ends and outside
  SciPy returns \<open>-inf\<close>, \<open>inf\<close> and \<open>nan\<close>.
\<close>

fun norm_ppf :: "(real \<Rightarrow> real) \<Rightarrow> npfloat \<Rightarrow> npfloat" where
  "norm_ppf ppf (Fin p) =
     (if 0 < p \<and> p < 1 then Fin (ppf p)
      else if p = 0 then NInf
      else if p = 1 then PInf
      else NaN)"
| "norm_ppf ppf a = NaN"

text \<open>
  \<^verbatim>\<open>
  def target_trophies(theta):
      ranks = np.argsort(np.argsort(theta))
      p = (ranks + 1) / (len(theta) + 1)
      z = norm.ppf(p)
      return TARGET_MEAN + TARGET_STD * z
  \<close>
\<close>

definition ranks :: "npfloat list \<Rightarrow> nat list" where
  "ranks theta = argsort (\<lambda>k. k) (argsort np_key theta)"

definition percentiles :: "npfloat list \<Rightarrow> npfloat list" where
  "percentiles theta =
     map (\<lambda>r. Fin (real (r + 1)) / Fin (real (length theta + 1))) (ranks theta)"

definition target_trophies :: "config \<Rightarrow> (real \<Rightarrow> real) \<Rightarrow> npfloat list \<Rightarrow> npfloat list" where
  "target_trophies cfg ppf theta =
     (let p = percentiles theta;
          z = map (norm_ppf ppf) p
      in map (\<lambda>zk. Fin (TARGET_MEAN cfg) + Fin (TARGET_STD cfg) * zk) z)"

section \<open>Matchmaking\<close>

text \<open>\<^verbatim>\<open>probs.sum()\<close>, \<^verbatim>\<open>np.abs\<close> and \<^verbatim>\<open>p.cumsum()\<close> (the running sums after \<open>acc\<close>).\<close>

definition np_sum :: "npfloat list \<Rightarrow> npfloat" where
  "np_sum xs = foldl (+) (Fin 0) xs"

fun np_abs :: "npfloat \<Rightarrow> npfloat" where
  "np_abs (Fin x) = Fin \<bar>x\<bar>"
| "np_abs PInf = PInf"
| "np_abs NInf = PInf"
| "np_abs NaN = NaN"

fun cumsum :: "npfloat \<Rightarrow> npfloat list \<Rightarrow> npfloat list" where
  "cumsum acc [] = []"
| "cumsum acc (x # xs) = (acc + x) # cumsum (acc + x) xs"

text \<open>
  \<^verbatim>\<open>cdf.searchsorted(u, side='right')\<close> on a non-decreasing array: the number of
  entries that are at most \<open>u\<close>.
\<close>

definition searchsorted_right :: "npfloat list \<Rightarrow> npfloat \<Rightarrow> nat" where
  "searchsorted_right cdf u = length (takeWhile (\<lambda>c. c \<le> u) cdf)"

definition ATOL :: real where
  "ATOL = 1 / 2 ^ 26"

text \<open>
  \<^verbatim>\<open>rng.choice(n, p=probs)\<close> of NumPy's \<open>Generator\<close>, for one sample. The generator is
  modelled by the uniform draw \<open>u\<close> from \<open>[0,1)\<close> that the call consumes. NumPy raises
  \<open>ValueError\<close> when \<open>n\<close> is not positive, when the sizes differ, when the probabilities
  contain \<open>nan\<close>, when one is negative, and when they do not sum to 1 within the square
  root of the machine epsilon; otherwise it inverts the cumulative distribution:
  \<^verbatim>\<open>
  cdf = p.cumsum(); cdf /= cdf[-1]
  idx = cdf.searchsorted(uniform_samples, side='right')
  \<close>
\<close>

definition rng_choice :: "nat \<Rightarrow> npfloat list \<Rightarrow> real \<Rightarrow> error + nat" where
  "rng_choice n p u =
     (if n = 0 \<or> length p \<noteq> n then Inl ValueError
      else if np_sum p = NaN then Inl ValueError
      else if list_ex (\<lambda>x. x < Fin 0) p then Inl ValueError
      else if Fin ATOL < np_abs (np_sum p - Fin 1) then Inl ValueError
      else
        (let cdf = cumsum (Fin 0) p;
             cdf = map (\<lambda>c. c / last cdf) cdf
         in Inr (searchsorted_right cdf (Fin u))))"

text \<open>
  \<^verbatim>\<open>
  def choose_opponent(i, theta):
      diffs = theta - theta[i]
      probs = np.exp(-0.5 * (diffs / SIGMA_MATCH) ** 2)
      probs[i] = 0.0
      probs /= probs.sum()
      return rng.choice(len(theta), p=probs)
  \<close>
\<close>

text \<open>
  Lines 70 to 72, the weights before normalisation, for \<open>i\<close> in range; \<^verbatim>\<open>x ** 2\<close> is
  the product of \<open>x\<close> with itself.
\<close>

definition weights :: "config \<Rightarrow> nat \<Rightarrow> npfloat list \<Rightarrow> npfloat list" where
  "weights cfg i theta =
     (let diffs = map (\<lambda>t. t - theta ! i) theta;
          probs = map (\<lambda>d. np_exp (Fin (- 0.5) *
                    ((d / Fin (SIGMA_MATCH cfg)) * (d / Fin (SIGMA_MATCH cfg))))) diffs
      in probs[i := Fin 0])"

definition choose_opponent :: "config \<Rightarrow> nat \<Rightarrow> npfloat list \<Rightarrow> real \<Rightarrow> error + nat" where
  "choose_opponent cfg i theta u =
     (if length theta \<le> i then Inl IndexError
      else
        (let probs = weights cfg i theta;
             s = np_sum probs;
             probs = map (\<lambda>p. p / s) probs
         in rng_choice (length theta) probs u))"

section \<open>Trophy step\<close>

text \<open>\<^verbatim>\<open>np.clip(x, lo, hi)\<close>; \<open>nan\<close> goes through.\<close>

definition np_clip :: "npfloat \<Rightarrow> npfloat \<Rightarrow> npfloat \<Rightarrow> npfloat" where
  "np_clip x lo hi =
     (if x = NaN then NaN else if x < lo then lo else if hi < x then hi else x)"

text \<open>
  Python's builtin \<^verbatim>\<open>max(a, b)\<close> keeps the first argument unless the second compares
  greater; a comparison with \<open>nan\<close> is false.
\<close>

definition py_max :: "npfloat \<Rightarrow> npfloat \<Rightarrow> npfloat" where
  "py_max a b = (if a < b then b else a)"

text \<open>
  The closure of the loop body, lines 101 to 113, with the arrays it reads and writes
  as arguments and the new \<open>trophies\<close> as result.
  \<^verbatim>\<open>
  def trophy_step(player, win):
      gap = targets[player] - trophies[player]
      scale = np.clip(gap / FADE_WIDTH, 0, 1)
      win_gain = WIN_GAIN * scale
      loss_penalty = LOSS_PENALTY * scale
      if win:
          trophies[player] += win_gain
      else:
          trophies[player] -= loss_penalty
      trophies[player] = max(0, trophies[player])
  \<close>
\<close>

definition trophy_step ::
  "config \<Rightarrow> npfloat list \<Rightarrow> npfloat list \<Rightarrow> nat \<Rightarrow> bool \<Rightarrow> error + npfloat list" where
  "trophy_step cfg targets trophies player win =
     (if length targets \<le> player \<or> length trophies \<le> player then Inl IndexError
      else
        (let gap = targets ! player - trophies ! player;
             scale = np_clip (gap / Fin (FADE_WIDTH cfg)) (Fin 0) (Fin 1);
             win_gain = Fin (WIN_GAIN cfg) * scale;
             loss_penalty = Fin (LOSS_PENALTY cfg) * scale;
             t = (if win then trophies ! player + win_gain
                  else trophies ! player - loss_penalty)
         in Inr (trophies[player := py_max (Fin 0) t])))"

section \<open>Simulation loop\<close>

text \<open>
  The arrays the loop mutates, lines 39 to 45; all three start as \<^verbatim>\<open>np.zeros(players)\<close>.
  \<open>true_skills\<close> is drawn once and never written, so it is an argument.
\<close>

record sim_state =
  st_theta :: "npfloat list"
  st_games :: "npfloat list"
  st_trophies :: "npfloat list"

definition init_state :: "config \<Rightarrow> sim_state" where
  "init_state cfg =
     \<lparr> st_theta = replicate (players cfg) (Fin 0),
       st_games = replicate (players cfg) (Fin 0),
       st_trophies = replicate (players cfg) (Fin 0) \<rparr>"

text \<open>
  The three values one round takes from the generator: \<^verbatim>\<open>rng.integers(players)\<close>, the
  uniform draw inside \<^verbatim>\<open>rng.choice\<close>, and \<^verbatim>\<open>rng.random()\<close>.
\<close>

record draws =
  draw_player :: nat
  draw_choice :: real
  draw_outcome :: real

definition valid_draws :: "config \<Rightarrow> draws \<Rightarrow> bool" where
  "valid_draws cfg d =
     (draw_player d < players cfg
      \<and> 0 \<le> draw_choice d \<and> draw_choice d < 1
      \<and> 0 \<le> draw_outcome d \<and> draw_outcome d < 1)"

text \<open>
  The second half of the loop body, lines 89 to 116, which updates the three arrays once
  the opponent \<open>j\<close> and the outcome are known.
  \<^verbatim>\<open>
  games[i] += 1
  games[j] += 1
  if i_wins: ... else: ...          # update_theta
  targets = target_trophies(theta)
  def trophy_step(player, win): ...
  trophy_step(i, i_wins)
  trophy_step(j, not i_wins)
  \<close>
\<close>

definition apply_outcome ::
  "config \<Rightarrow> (real \<Rightarrow> real) \<Rightarrow> sim_state \<Rightarrow> nat \<Rightarrow> nat \<Rightarrow> bool \<Rightarrow> error + sim_state" where
  "apply_outcome cfg ppf st i j i_wins =
     (if length (st_games st) \<le> i \<or> length (st_games st) \<le> j then Inl IndexError
      else
        (let games1 = (st_games st)[i := st_games st ! i + Fin 1];
             games2 = games1[j := games1 ! j + Fin 1]
         in case update_theta cfg (st_theta st) i j i_wins of
              Inl e \<Rightarrow> Inl e
            | Inr theta' \<Rightarrow>
                (let targets = target_trophies cfg ppf theta' in
                 case trophy_step cfg targets (st_trophies st) i i_wins of
                   Inl e \<Rightarrow> Inl e
                 | Inr trophies1 \<Rightarrow>
                     (case trophy_step cfg targets trophies1 j (\<not> i_wins) of
                        Inl e \<Rightarrow> Inl e
                      | Inr trophies2 \<Rightarrow>
                          Inr \<lparr> st_theta = theta', st_games = games2,
                                st_trophies = trophies2 \<rparr>))))"

text \<open>
  The first half, lines 82 to 87, which picks the pair and draws the outcome.
  \<^verbatim>\<open>
  i = rng.integers(players)
  j = choose_opponent(i, theta)
  p_true = 1 / (1 + np.exp(-tightness * (true_skills[i] - true_skills[j])))
  i_wins = rng.random() < p_true
  \<close>
\<close>

definition play_round ::
  "config \<Rightarrow> (real \<Rightarrow> real) \<Rightarrow> npfloat list \<Rightarrow> sim_state \<Rightarrow> draws \<Rightarrow> error + sim_state" where
  "play_round cfg ppf true_skills st d =
     (let i = draw_player d in
      case choose_opponent cfg i (st_theta st) (draw_choice d) of
        Inl e \<Rightarrow> Inl e
      | Inr j \<Rightarrow>
          if length true_skills \<le> i \<or> length true_skills \<le> j then Inl IndexError
          else
            (let p_true = Fin 1 / (Fin 1 +
                   np_exp (Fin (- tightness cfg) * (true_skills ! i - true_skills ! j)));
                 i_wins = (Fin (draw_outcome d) < p_true)
             in apply_outcome cfg ppf st i j i_wins))"

text \<open>
  \<^verbatim>\<open>for _ in range(num_games)\<close>, one element of \<open>ds\<close> for each round; an exception ends
  the run.
\<close>

definition num_games :: "config \<Rightarrow> nat" where
  "num_games cfg = games_played_per_person cfg * players cfg"

fun simulate ::
  "config \<Rightarrow> (real \<Rightarrow> real) \<Rightarrow> npfloat list \<Rightarrow> draws list \<Rightarrow> sim_state \<Rightarrow> error + sim_state" where
  "simulate cfg ppf true_skills [] st = Inr st"
| "simulate cfg ppf true_skills (d # ds) st =
     (case play_round cfg ppf true_skills st d of
        Inl e \<Rightarrow> Inl e
      | Inr st' \<Rightarrow> simulate cfg ppf true_skills ds st')"

text \<open>
  What the loop keeps true of its arrays: \<open>n\<close> entries each, every strength finite and
  within \<open>bound\<close> of zero, every trophy score finite and not negative.
\<close>

definition state_ok :: "nat \<Rightarrow> real \<Rightarrow> sim_state \<Rightarrow> bool" where
  "state_ok n bound st =
     (length (st_theta st) = n \<and> length (st_trophies st) = n
      \<and> list_all (\<lambda>x. \<exists>a. x = Fin a \<and> \<bar>a\<bar> \<le> bound) (st_theta st)
      \<and> list_all (\<lambda>x. \<exists>t. x = Fin t \<and> 0 \<le> t) (st_trophies st))"

section \<open>Properties of the Bradley-Terry update\<close>

lemma np_exp_in_range: "in_exp_range x \<Longrightarrow> np_exp (Fin x) = Fin (exp x)"
  by (simp add: in_exp_range_def)

lemma bt_update_in_range:
  assumes "in_exp_range a" "in_exp_range b"
  shows "bt_update (Fin a) (Fin b) (Fin 1) (Fin K) =
           (Fin (a + K * (1 - exp a / (exp a + exp b))),
            Fin (b - K * (1 - exp a / (exp a + exp b))))"
proof -
  have nz: "exp a + exp b \<noteq> 0"
    using exp_gt_zero [of a] exp_gt_zero [of b] by linarith
  have ea: "np_exp (Fin a) = Fin (exp a)" and eb: "np_exp (Fin b) = Fin (exp b)"
    using assms by (simp_all add: np_exp_in_range del: np_exp.simps)
  show ?thesis
    using nz by (simp add: bt_update_def ea eb minus_npfloat_def Let_def del: np_exp.simps)
qed





section \<open>Properties of the trophy step\<close>

lemma py_max_zero_le: "Fin 0 \<le> py_max (Fin 0) t"
  by (cases t) (simp_all add: py_max_def)

lemma np_clip_Fin: "np_clip (Fin x) (Fin 0) (Fin 1) = Fin (max 0 (min 1 x))"
  by (simp add: np_clip_def max_def min_def)

lemma py_max_Fin: "py_max (Fin 0) (Fin x) = Fin (max 0 x)"
  by (simp add: py_max_def max_def)

text \<open>On finite scores and a non-zero fade width the step is the real-valued formula.\<close>

lemma trophy_step_Fin:
  assumes "player < length targets" and "player < length trophies"
    and "targets ! player = Fin g" and "trophies ! player = Fin t"
    and "FADE_WIDTH cfg \<noteq> 0"
  shows "trophy_step cfg targets trophies player win =
           Inr (trophies[player := Fin (max 0
             (if win then t + WIN_GAIN cfg * max 0 (min 1 ((g - t) / FADE_WIDTH cfg))
              else t - LOSS_PENALTY cfg * max 0 (min 1 ((g - t) / FADE_WIDTH cfg))))])"
  using assms
  by (simp add: trophy_step_def Let_def minus_npfloat_def np_clip_Fin py_max_Fin)

text \<open>
  C2. After a trophy step the participant's trophy score is at least 0, for every
  configuration, outcome and gap, finite or not: the last assignment is
  \<^verbatim>\<open>max(0, ...)\<close>, and Python's \<open>max\<close> returns 0 also on \<open>nan\<close>. The step writes no
  other participant's score.
\<close>

theorem trophy_step_nonneg:
  assumes "player < length targets" and "player < length trophies"
  shows "\<exists>tr'. trophy_step cfg targets trophies player win = Inr tr'
           \<and> length tr' = length trophies
           \<and> Fin 0 \<le> tr' ! player
           \<and> (\<forall>k. k \<noteq> player \<longrightarrow> tr' ! k = trophies ! k)"
  using assms by (simp add: trophy_step_def Let_def py_max_zero_le)

theorem trophy_step_nonneg_witness:
  "\<exists>tr'. trophy_step (default_config\<lparr>FADE_WIDTH := 0, WIN_GAIN := - 35\<rparr>)
            [Fin 10, Fin 20] [Fin 10, Fin 20] 0 True = Inr tr'
           \<and> length tr' = length [Fin 10, Fin 20 :: npfloat]
           \<and> Fin 0 \<le> tr' ! 0
           \<and> (\<forall>k. k \<noteq> 0 \<longrightarrow> tr' ! k = [Fin 10, Fin 20] ! k)"
  using trophy_step_nonneg [where player = 0 and targets = "[Fin 10, Fin 20]"
      and trophies = "[Fin 10, Fin 20]" and win = True
      and cfg = "default_config\<lparr>FADE_WIDTH := 0, WIN_GAIN := - 35\<rparr>"]
  by simp

text \<open>
  C5. With \<open>gap = target - trophy\<close> and \<open>scale = clamp (gap / FADE_WIDTH) 0 1\<close>, a win
  adds \<open>WIN_GAIN * scale\<close>, a loss subtracts \<open>LOSS_PENALTY * scale\<close>, and the result is
  floored at zero. The gap is signed: with a positive fade width, a participant at or
  above its target has scale 0 and gains nothing on a win.
\<close>

theorem trophy_step_rule:
  assumes "player < length targets" and "player < length trophies"
    and "targets ! player = Fin g" and "trophies ! player = Fin t"
    and "FADE_WIDTH cfg \<noteq> 0"
  shows "let gap = g - t;
             scale = max 0 (min 1 (gap / FADE_WIDTH cfg))
         in trophy_step cfg targets trophies player win =
              Inr (trophies[player := Fin (max 0
                (if win then t + WIN_GAIN cfg * scale else t - LOSS_PENALTY cfg * scale))])
            \<and> (0 < FADE_WIDTH cfg \<and> g \<le> t \<longrightarrow> scale = 0)
            \<and> (0 < FADE_WIDTH cfg \<and> g \<le> t \<and> win \<longrightarrow>
                 trophy_step cfg targets trophies player win =
                   Inr (trophies[player := Fin (max 0 t)]))"
proof -
  have s0: "max 0 (min 1 ((g - t) / FADE_WIDTH cfg)) = 0"
    if "0 < FADE_WIDTH cfg" and "g \<le> t"
  proof -
    have "(g - t) / FADE_WIDTH cfg \<le> 0"
      using that by (simp add: divide_le_0_iff)
    then show ?thesis by simp
  qed
  show ?thesis
    unfolding Let_def trophy_step_Fin [OF assms]
    using s0 by auto
qed

theorem trophy_step_rule_witness:
  "FADE_WIDTH default_config \<noteq> 0
   \<and> trophy_step default_config [Fin 100, Fin 1000] [Fin 0, Fin 50] 0 True
       = Inr [Fin (35 / 3), Fin 50]
   \<and> trophy_step default_config [Fin 100, Fin 1000] [Fin 0, Fin 50] 1 False
       = Inr [Fin 0, Fin 25]"
  using trophy_step_rule [where player = 0 and targets = "[Fin 100, Fin 1000]"
      and trophies = "[Fin 0, Fin 50]" and g = 100 and t = 0 and win = True
      and cfg = default_config]
    trophy_step_rule [where player = 1 and targets = "[Fin 100, Fin 1000]"
      and trophies = "[Fin 0, Fin 50]" and g = 1000 and t = 50 and win = False
      and cfg = default_config]
  by (simp add: default_config_def Let_def)

text \<open>
  C10. A participant whose trophy score is at or above its target keeps exactly that
  score through a trophy step, won or lost: the clamped scale is 0. The score is one the
  script can hold, that is, not negative (C2), and the fade width is positive, as the
  script's 300 is.
\<close>

theorem trophy_step_frame:
  assumes "player < length targets" and "player < length trophies"
    and "targets ! player = Fin g" and "trophies ! player = Fin t"
    and "g \<le> t" and "0 \<le> t" and "0 < FADE_WIDTH cfg"
  shows "trophy_step cfg targets trophies player win = Inr trophies"
proof -
  have "(g - t) / FADE_WIDTH cfg \<le> 0"
    using assms by (simp add: divide_le_0_iff)
  then have s0: "max 0 (min 1 ((g - t) / FADE_WIDTH cfg)) = 0"
    by simp
  have nz: "FADE_WIDTH cfg \<noteq> 0"
    using assms by simp
  have "trophies[player := Fin t] = trophies"
    using assms(4) by (metis list_update_id)
  then show ?thesis
    using assms(6) by (simp add: trophy_step_Fin [OF assms(1-4) nz] s0)
qed

theorem trophy_step_frame_witness:
  "0 < FADE_WIDTH default_config
   \<and> trophy_step default_config [Fin 1500, Fin 1200] [Fin 1600, Fin 0] 0 True
       = Inr [Fin 1600, Fin 0]
   \<and> trophy_step default_config [Fin 1500, Fin 1200] [Fin 1600, Fin 0] 0 False
       = Inr [Fin 1600, Fin 0]"
  using trophy_step_frame [where player = 0 and targets = "[Fin 1500, Fin 1200]"
      and trophies = "[Fin 1600, Fin 0]" and g = 1500 and t = 1600 and win = True
      and cfg = default_config]
    trophy_step_frame [where player = 0 and targets = "[Fin 1500, Fin 1200]"
      and trophies = "[Fin 1600, Fin 0]" and g = 1500 and t = 1600 and win = False
      and cfg = default_config]
  by (simp add: default_config_def)

section \<open>Properties of the target trophies\<close>

lemma mset_argsort: "mset (argsort key xs) = mset [0..<length xs]"
  by (simp add: argsort_def)

lemma length_argsort: "length (argsort key xs) = length xs"
  by (simp add: argsort_def)

lemma set_argsort: "set (argsort key xs) = {0..<length xs}"
  by (simp add: argsort_def)

lemma sorted_argsort: "sorted (map (\<lambda>i. key (xs ! i)) (argsort key xs))"
  by (simp add: argsort_def)

lemma length_ranks: "length (ranks theta) = length theta"
  by (simp add: ranks_def length_argsort)

lemma mset_ranks: "mset (ranks theta) = mset [0..<length theta]"
  by (simp add: ranks_def mset_argsort length_argsort)

lemma ranks_less_length:
  assumes "k < length theta"
  shows "ranks theta ! k < length theta"
proof -
  have "ranks theta ! k \<in> set (ranks theta)"
    using assms by (simp add: length_ranks)
  also have "set (ranks theta) = {0..<length theta}"
    by (simp add: ranks_def set_argsort length_argsort)
  finally show ?thesis by simp
qed

text \<open>The second argsort inverts the first.\<close>

lemma argsort_ranks:
  assumes "k < length theta"
  shows "argsort np_key theta ! (ranks theta ! k) = k"
proof -
  let ?ord = "argsort np_key theta"
  let ?n = "length theta"
  have len: "length ?ord = ?n"
    by (rule length_argsort)
  have "mset (map (\<lambda>i. ?ord ! i) (ranks theta)) = image_mset (\<lambda>i. ?ord ! i) (mset (ranks theta))"
    by simp
  also have "\<dots> = image_mset (\<lambda>i. ?ord ! i) (mset [0..<length ?ord])"
    by (simp add: mset_ranks len)
  also have "\<dots> = mset (map (\<lambda>i. ?ord ! i) [0..<length ?ord])"
    by simp
  also have "\<dots> = mset ?ord"
    by (simp add: map_nth)
  also have "\<dots> = mset [0..<?n]"
    by (rule mset_argsort)
  finally have m: "mset (map (\<lambda>i. ?ord ! i) (ranks theta)) = mset [0..<?n]" .
  have s: "sorted (map (\<lambda>i. ?ord ! i) (ranks theta))"
    unfolding ranks_def by (rule sorted_argsort)
  have "sort [0..<?n] = map (\<lambda>i. ?ord ! i) (ranks theta)"
    using m s by (rule properties_for_sort)
  then have "map (\<lambda>i. ?ord ! i) (ranks theta) = [0..<?n]"
    by (simp add: sorted_sort_id)
  then have "map (\<lambda>i. ?ord ! i) (ranks theta) ! k = [0..<?n] ! k"
    by simp
  then show ?thesis
    using assms by (simp add: length_ranks)
qed

lemma ranks_key_less:
  assumes "i < length theta" and "j < length theta"
    and "np_key (theta ! i) < np_key (theta ! j)"
  shows "ranks theta ! i < ranks theta ! j"
proof (rule ccontr)
  let ?ord = "argsort np_key theta"
  assume "\<not> ranks theta ! i < ranks theta ! j"
  then have le: "ranks theta ! j \<le> ranks theta ! i"
    by simp
  have ri: "ranks theta ! i < length (map (\<lambda>k. np_key (theta ! k)) ?ord)"
    using assms(1) by (simp add: length_argsort ranks_less_length)
  have "map (\<lambda>k. np_key (theta ! k)) ?ord ! (ranks theta ! j)
          \<le> map (\<lambda>k. np_key (theta ! k)) ?ord ! (ranks theta ! i)"
    using sorted_argsort le ri by (rule sorted_nth_mono)
  then have "np_key (theta ! j) \<le> np_key (theta ! i)"
    using assms(1,2) by (simp add: length_argsort ranks_less_length argsort_ranks)
  then show False
    using assms(3) by simp
qed

lemma less_np_key: "a < b \<Longrightarrow> np_key a < np_key b"
  by (cases a; cases b) simp_all

lemma ranks_less:
  assumes "i < length theta" and "j < length theta" and "theta ! i < theta ! j"
  shows "ranks theta ! i < ranks theta ! j"
  using assms by (simp add: ranks_key_less less_np_key)

lemma ranks_inj:
  assumes "i < length theta" and "j < length theta" and "i \<noteq> j"
  shows "ranks theta ! i \<noteq> ranks theta ! j"
  using assms argsort_ranks by metis

lemma percentiles_nth:
  assumes "i < length theta"
  shows "percentiles theta ! i = Fin ((real (ranks theta ! i) + 1) / (real (length theta) + 1))"
proof -
  have "real (length theta) + 1 \<noteq> 0"
    by (metis add.commute of_nat_Suc of_nat_neq_0)
  then show ?thesis
    using assms by (simp add: percentiles_def length_ranks add.commute)
qed

lemma percentile_bounds:
  assumes "i < length theta"
  shows "0 < (real (ranks theta ! i) + 1) / (real (length theta) + 1)"
    and "(real (ranks theta ! i) + 1) / (real (length theta) + 1) < 1"
proof -
  have "ranks theta ! i < length theta"
    using assms by (rule ranks_less_length)
  then have lt: "real (ranks theta ! i) + 1 < real (length theta) + 1"
    by simp
  show "0 < (real (ranks theta ! i) + 1) / (real (length theta) + 1)"
    by (simp add: add_pos_nonneg)
  show "(real (ranks theta ! i) + 1) / (real (length theta) + 1) < 1"
    using lt by (simp add: add_pos_nonneg)
qed

lemma target_trophies_nth:
  assumes "i < length theta"
  shows "target_trophies cfg ppf theta ! i =
           Fin (TARGET_MEAN cfg + TARGET_STD cfg *
             ppf ((real (ranks theta ! i) + 1) / (real (length theta) + 1)))"
proof -
  have len: "i < length (percentiles theta)"
    using assms by (simp add: percentiles_def length_ranks)
  show ?thesis
    using assms len percentile_bounds [OF assms]
    by (simp add: target_trophies_def Let_def percentiles_nth)
qed

text \<open>
  C7. The targets are monotone in the strengths: a participant with a strictly greater
  latent strength has a target at least as great. \<open>norm.ppf\<close> is non-decreasing on
  \<open>(0,1)\<close> and the target standard deviation is not negative (430 in the script).
\<close>

theorem target_trophies_monotone:
  assumes "i < length theta" and "j < length theta"
    and "theta ! j < theta ! i"
    and mono: "\<And>p q. 0 < p \<Longrightarrow> p \<le> q \<Longrightarrow> q < 1 \<Longrightarrow> ppf p \<le> ppf q"
    and std: "0 \<le> TARGET_STD cfg"
  shows "target_trophies cfg ppf theta ! j \<le> target_trophies cfg ppf theta ! i"
proof -
  let ?p = "\<lambda>k. (real (ranks theta ! k) + 1) / (real (length theta) + 1)"
  have "ranks theta ! j < ranks theta ! i"
    using assms(2,1,3) by (rule ranks_less)
  then have "?p j \<le> ?p i"
    by (simp add: divide_right_mono)
  then have "ppf (?p j) \<le> ppf (?p i)"
    using percentile_bounds(1) [OF assms(2)] percentile_bounds(2) [OF assms(1)]
    by (simp add: mono)
  then have "TARGET_STD cfg * ppf (?p j) \<le> TARGET_STD cfg * ppf (?p i)"
    using std by (rule mult_left_mono)
  then show ?thesis
    using assms(1,2) by (simp add: target_trophies_nth)
qed

theorem target_trophies_monotone_witness:
  "[Fin 1, Fin 0] ! 1 < [Fin 1, Fin 0 :: npfloat] ! 0
   \<and> target_trophies default_config (\<lambda>p. p) [Fin 1, Fin 0] ! 1
       \<le> target_trophies default_config (\<lambda>p. p) [Fin 1, Fin 0] ! 0"
  using target_trophies_monotone [where i = 0 and j = 1 and theta = "[Fin 1, Fin 0]"
      and ppf = "\<lambda>p. p" and cfg = default_config]
  by (simp add: default_config_def)

text \<open>
  C8. \<open>target_trophies\<close> ranks the \<open>N\<close> participants by latent strength, ascending:
  the ranks are a permutation of \<open>0..N-1\<close> that respects the order of the strengths.
  Each participant gets the position \<open>p = (rank + 1) / (N + 1)\<close>, strictly between 0 and
  1, and the target \<open>TARGET_MEAN + TARGET_STD * ppf p\<close>.
\<close>

theorem target_trophies_rule:
  assumes "i < length theta"
  shows "let N = length theta;
             rank = ranks theta ! i;
             p = (real rank + 1) / (real N + 1)
         in length (target_trophies cfg ppf theta) = N
            \<and> mset (ranks theta) = mset [0..<N]
            \<and> (\<forall>j<N. theta ! i < theta ! j \<longrightarrow> rank < ranks theta ! j)
            \<and> (\<forall>j<N. theta ! j < theta ! i \<longrightarrow> ranks theta ! j < rank)
            \<and> 0 < p \<and> p < 1
            \<and> target_trophies cfg ppf theta ! i
                 = Fin (TARGET_MEAN cfg + TARGET_STD cfg * ppf p)"
proof -
  have len: "length (target_trophies cfg ppf theta) = length theta"
    by (simp add: target_trophies_def percentiles_def length_ranks Let_def)
  have asc: "\<forall>j<length theta. theta ! i < theta ! j \<longrightarrow> ranks theta ! i < ranks theta ! j"
    using assms by (simp add: ranks_less)
  have desc: "\<forall>j<length theta. theta ! j < theta ! i \<longrightarrow> ranks theta ! j < ranks theta ! i"
    using assms by (simp add: ranks_less)
  show ?thesis
    unfolding Let_def
    using len asc desc mset_ranks percentile_bounds [OF assms] target_trophies_nth [OF assms]
    by simp
qed

theorem target_trophies_rule_witness:
  "ranks [Fin 2, Fin (- 1), Fin (1 / 2)] = [2, 0, 1]
   \<and> target_trophies default_config (\<lambda>p. p) [Fin 2, Fin (- 1), Fin (1 / 2)] ! 0
       = Fin (1500 + 430 * (3 / 4))"
  using target_trophies_rule [where i = 0 and theta = "[Fin 2, Fin (- 1), Fin (1 / 2)]"
      and ppf = "\<lambda>p. p" and cfg = default_config]
  by (simp add: default_config_def Let_def ranks_def argsort_def upt_conv_Cons)

text \<open>
  C9, as stated, fails: two participants of equal strength get the ranks 0 and 1 and the
  positions 1/3 and 2/3, not the midpoint position 1/2 twice.
\<close>

theorem target_trophies_ties_counterexample:
  "ranks [Fin 0, Fin 0] = [0, 1]
   \<and> percentiles [Fin 0, Fin 0] = [Fin (1 / 3), Fin (2 / 3)]"
  by (simp add: percentiles_def ranks_def argsort_def upt_conv_Cons)

text \<open>
  C9, amended. Participants of exactly equal latent strength get distinct ranks, since the
  ranks are a permutation and no rank is averaged; so they get distinct positions and,
  \<open>norm.ppf\<close> being injective on \<open>(0,1)\<close> and the standard deviation not zero, distinct
  targets.
\<close>

theorem target_trophies_ties_distinct:
  assumes "i < length theta" and "j < length theta" and "i \<noteq> j"
    and "theta ! i = theta ! j"
    and inj: "inj_on ppf {0<..<1}"
    and std: "TARGET_STD cfg \<noteq> 0"
  shows "ranks theta ! i \<noteq> ranks theta ! j
         \<and> percentiles theta ! i \<noteq> percentiles theta ! j
         \<and> target_trophies cfg ppf theta ! i \<noteq> target_trophies cfg ppf theta ! j"
proof -
  let ?p = "\<lambda>k. (real (ranks theta ! k) + 1) / (real (length theta) + 1)"
  have r: "ranks theta ! i \<noteq> ranks theta ! j"
    using assms(1-3) by (rule ranks_inj)
  have pos: "real (length theta) + 1 \<noteq> 0"
    by (metis add.commute of_nat_Suc of_nat_neq_0)
  have p: "?p i \<noteq> ?p j"
    using r pos by simp
  have "?p i \<in> {0<..<1}" and "?p j \<in> {0<..<1}"
    using percentile_bounds [OF assms(1)] percentile_bounds [OF assms(2)] by simp_all
  then have "ppf (?p i) \<noteq> ppf (?p j)"
    using p inj by (meson inj_onD)
  then have "TARGET_MEAN cfg + TARGET_STD cfg * ppf (?p i)
               \<noteq> TARGET_MEAN cfg + TARGET_STD cfg * ppf (?p j)"
    using std by simp
  then show ?thesis
    using r p assms(1,2) by (simp add: percentiles_nth target_trophies_nth)
qed

theorem target_trophies_ties_distinct_witness:
  "inj_on (\<lambda>p::real. p) {0<..<1}
   \<and> target_trophies default_config (\<lambda>p. p) [Fin 0, Fin 0] ! 0
       \<noteq> target_trophies default_config (\<lambda>p. p) [Fin 0, Fin 0] ! 1"
  using target_trophies_ties_distinct [where i = 0 and j = 1 and theta = "[Fin 0, Fin 0]"
      and ppf = "\<lambda>p. p" and cfg = default_config]
  by (simp add: default_config_def)

section \<open>Range of the exponentials\<close>









section \<open>Properties of the matchmaking\<close>

text \<open>
  C3, as stated, fails: \<open>choose_opponent\<close> has no fallback. With two participants whose
  strengths are 100 apart (or 1 apart with a bandwidth of 1/1000), the weight of the
  other participant underflows to 0, the weights sum to 0, the normalisation gives
  \<open>0 / 0 = nan\<close>, and \<^verbatim>\<open>rng.choice\<close> raises \<open>ValueError\<close>.
\<close>

theorem choose_opponent_collapse_counterexample:
  "choose_opponent default_config 0 [Fin 0, Fin 100] (1 / 2) = Inl ValueError
   \<and> choose_opponent (default_config\<lparr>SIGMA_MATCH := 1 / 1000\<rparr>) 0 [Fin 0, Fin 1] (1 / 2)
       = Inl ValueError"
  by (simp add: choose_opponent_def weights_def default_config_def np_sum_def rng_choice_def
      minus_npfloat_def EXP_UNDERFLOW_def EXP_OVERFLOW_def Let_def)

lemma length_weights: "length (weights cfg i theta) = length theta"
  by (simp add: weights_def Let_def)

lemma foldl_plus_zeros: "foldl (+) (Fin 0) (replicate n (Fin 0)) = Fin 0"
  by (induction n) simp_all

lemma foldl_plus_NaN: "foldl (+) NaN xs = NaN"
  by (induction xs) simp_all

lemma np_sum_NaNs: "0 < n \<Longrightarrow> np_sum (replicate n NaN) = NaN"
  by (cases n) (simp_all add: np_sum_def foldl_plus_NaN)

lemma choose_opponent_all_zero:
  assumes "i < length theta"
    and zero: "\<forall>k<length theta. weights cfg i theta ! k = Fin 0"
  shows "choose_opponent cfg i theta u = Inl ValueError"
proof -
  let ?n = "length theta"
  have w: "weights cfg i theta = replicate ?n (Fin 0)"
    using zero by (simp add: list_eq_iff_nth_eq length_weights)
  have s: "np_sum (weights cfg i theta) = Fin 0"
    by (simp add: w np_sum_def foldl_plus_zeros)
  have p: "map (\<lambda>p. p / Fin 0) (weights cfg i theta) = replicate ?n NaN"
    by (simp add: w)
  have "0 < ?n"
    using assms(1) by linarith
  then have r: "rng_choice ?n (replicate ?n NaN) u = Inl ValueError"
    by (simp add: rng_choice_def np_sum_NaNs)
  have "choose_opponent cfg i theta u =
          rng_choice ?n (map (\<lambda>p. p / np_sum (weights cfg i theta)) (weights cfg i theta)) u"
    using assms(1) by (simp add: choose_opponent_def Let_def)
  also have "\<dots> = rng_choice ?n (replicate ?n NaN) u"
    by (simp only: s p)
  finally show ?thesis
    using r by simp
qed

lemma rng_choice_second:
  "0 \<le> u \<Longrightarrow> u < 1 \<Longrightarrow> rng_choice (Suc (Suc 0)) [Fin 0, Fin 1] u = Inr 1"
  by (simp add: rng_choice_def np_sum_def minus_npfloat_def ATOL_def searchsorted_right_def
      Let_def)

lemma rng_choice_first:
  "u < 1 \<Longrightarrow> rng_choice (Suc (Suc 0)) [Fin 1, Fin 0] u = Inr 0"
  by (simp add: rng_choice_def np_sum_def minus_npfloat_def ATOL_def searchsorted_right_def
      Let_def)

lemma weight_exponent_le: "- 0.5 * (x * x) \<le> EXP_OVERFLOW" for x :: real
proof -
  have "0 \<le> x * x"
    by simp
  then have "- 0.5 * (x * x) \<le> 0"
    by linarith
  moreover have "0 \<le> EXP_OVERFLOW"
    by (simp add: EXP_OVERFLOW_def)
  ultimately show ?thesis
    by (rule order_trans)
qed

lemma choose_opponent_pair_first:
  assumes "SIGMA_MATCH cfg \<noteq> 0" and "0 \<le> u" and "u < 1"
  shows "choose_opponent cfg 0 [Fin a, Fin b] u =
           (if - 0.5 * ((b - a) / SIGMA_MATCH cfg)\<^sup>2 < EXP_UNDERFLOW then Inl ValueError
            else Inr 1)"
proof -
  let ?x = "(b - a) / SIGMA_MATCH cfg"
  have ov: "\<not> EXP_OVERFLOW < - 0.5 * (?x * ?x)"
    using weight_exponent_le [of ?x] by simp
  have w: "weights cfg 0 [Fin a, Fin b] =
             [Fin 0, if - 0.5 * (?x * ?x) < EXP_UNDERFLOW then Fin 0 else Fin (exp (- 0.5 * (?x * ?x)))]"
    using assms(1) ov by (simp add: weights_def Let_def minus_npfloat_def)
  show ?thesis
  proof (cases "- 0.5 * (?x * ?x) < EXP_UNDERFLOW")
    case True
    then have "\<forall>k<length [Fin a, Fin b]. weights cfg 0 [Fin a, Fin b] ! k = Fin 0"
      by (simp add: w less_Suc_eq)
    then have "choose_opponent cfg 0 [Fin a, Fin b] u = Inl ValueError"
      by (intro choose_opponent_all_zero) simp_all
    then show ?thesis
      using True by (simp add: power2_eq_square)
  next
    case False
    then have "choose_opponent cfg 0 [Fin a, Fin b] u = rng_choice (Suc (Suc 0)) [Fin 0, Fin 1] u"
      by (simp add: choose_opponent_def Let_def w np_sum_def)
    then show ?thesis
      using False assms(2,3) by (simp add: rng_choice_second power2_eq_square)
  qed
qed

lemma choose_opponent_pair_second:
  assumes "SIGMA_MATCH cfg \<noteq> 0" and "u < 1"
  shows "choose_opponent cfg 1 [Fin a, Fin b] u =
           (if - 0.5 * ((a - b) / SIGMA_MATCH cfg)\<^sup>2 < EXP_UNDERFLOW then Inl ValueError
            else Inr 0)"
proof -
  let ?x = "(a - b) / SIGMA_MATCH cfg"
  have ov: "\<not> EXP_OVERFLOW < - 0.5 * (?x * ?x)"
    using weight_exponent_le [of ?x] by simp
  have w: "weights cfg (Suc 0) [Fin a, Fin b] =
             [if - 0.5 * (?x * ?x) < EXP_UNDERFLOW then Fin 0 else Fin (exp (- 0.5 * (?x * ?x))), Fin 0]"
    using assms(1) ov by (simp add: weights_def Let_def minus_npfloat_def)
  show ?thesis
  proof (cases "- 0.5 * (?x * ?x) < EXP_UNDERFLOW")
    case True
    then have "\<forall>k<length [Fin a, Fin b]. weights cfg (Suc 0) [Fin a, Fin b] ! k = Fin 0"
      by (simp add: w less_Suc_eq)
    then have "choose_opponent cfg (Suc 0) [Fin a, Fin b] u = Inl ValueError"
      by (intro choose_opponent_all_zero) simp_all
    then show ?thesis
      using True by (simp add: power2_eq_square)
  next
    case False
    then have "choose_opponent cfg (Suc 0) [Fin a, Fin b] u = rng_choice (Suc (Suc 0)) [Fin 1, Fin 0] u"
      by (simp add: choose_opponent_def Let_def w np_sum_def)
    then show ?thesis
      using False assms(2) by (simp add: rng_choice_first power2_eq_square)
  qed
qed

text \<open>
  C3, amended. When all the weights are zero, \<open>choose_opponent\<close> fails with
  \<open>ValueError\<close>, for any number of participants. With two participants and a non-zero
  bandwidth it returns the index of the other participant, whatever the draw, exactly
  when the weight of the other has not underflowed to zero; otherwise it fails.
\<close>

theorem choose_opponent_no_fallback:
  "(i < length theta \<and> (\<forall>k<length theta. weights cfg i theta ! k = Fin 0) \<longrightarrow>
      choose_opponent cfg i theta u = Inl ValueError)
   \<and> (SIGMA_MATCH cfg \<noteq> 0 \<and> 0 \<le> u \<and> u < 1 \<longrightarrow>
        choose_opponent cfg 0 [Fin a, Fin b] u =
          (if - 0.5 * ((b - a) / SIGMA_MATCH cfg)\<^sup>2 < EXP_UNDERFLOW then Inl ValueError
           else Inr 1)
        \<and> choose_opponent cfg 1 [Fin a, Fin b] u =
          (if - 0.5 * ((a - b) / SIGMA_MATCH cfg)\<^sup>2 < EXP_UNDERFLOW then Inl ValueError
           else Inr 0))"
  using choose_opponent_all_zero [of i theta cfg u]
    choose_opponent_pair_first [of cfg u a b] choose_opponent_pair_second [of cfg u a b]
  by simp

theorem choose_opponent_no_fallback_witness:
  "weights default_config 0 [Fin 0, Fin 100] = [Fin 0, Fin 0]
   \<and> choose_opponent default_config 0 [Fin 0, Fin 100] (1 / 2) = Inl ValueError
   \<and> choose_opponent default_config 0 [Fin 0, Fin 1] (1 / 2) = Inr 1
   \<and> choose_opponent default_config 1 [Fin 0, Fin 1] (1 / 2) = Inr 0"
  using choose_opponent_no_fallback [where i = 0 and theta = "[Fin 0, Fin 100]"
      and cfg = default_config and u = "1 / 2" and a = 0 and b = 1]
  by (simp add: weights_def default_config_def minus_npfloat_def EXP_UNDERFLOW_def
      EXP_OVERFLOW_def Let_def less_Suc_eq power2_eq_square)

section \<open>Invariants of the simulation loop\<close>

text \<open>
  One update moves a strength by at most \<open>K_BT\<close>, so the strengths of a run stay bounded;
  a trophy step on finite scores leaves finite, non-negative scores.
\<close>

lemma exp_range_709: "EXP_UNDERFLOW \<le> - 709" "709 \<le> EXP_OVERFLOW"
  by (simp_all add: EXP_UNDERFLOW_def EXP_OVERFLOW_def)

lemma in_exp_range_bounded: "\<bar>a\<bar> \<le> B \<Longrightarrow> B \<le> 709 \<Longrightarrow> in_exp_range a"
  unfolding in_exp_range_def using exp_range_709 by linarith

lemma bt_delta_bounds:
  fixes a b K :: real
  assumes "0 \<le> K"
  shows "0 \<le> K * (1 - exp a / (exp a + exp b))"
    and "K * (1 - exp a / (exp a + exp b)) \<le> K"
proof -
  have pos: "0 < exp a + exp b"
    using exp_gt_zero [of a] exp_gt_zero [of b] by linarith
  have "exp a / (exp a + exp b) \<le> 1"
    using pos by simp
  moreover have "0 \<le> exp a / (exp a + exp b)"
    using pos by simp
  ultimately have "0 \<le> 1 - exp a / (exp a + exp b)" and "1 - exp a / (exp a + exp b) \<le> 1"
    by simp_all
  then show "0 \<le> K * (1 - exp a / (exp a + exp b))"
    and "K * (1 - exp a / (exp a + exp b)) \<le> K"
    using assms by (simp_all add: mult_left_le)
qed

lemma bt_update_bounded:
  assumes "\<bar>a\<bar> \<le> B" and "\<bar>b\<bar> \<le> B" and "B \<le> 709" and "0 \<le> K"
  shows "\<exists>a' b'. bt_update (Fin a) (Fin b) (Fin 1) (Fin K) = (Fin a', Fin b')
           \<and> \<bar>a'\<bar> \<le> B + K \<and> \<bar>b'\<bar> \<le> B + K"
proof -
  let ?d = "K * (1 - exp a / (exp a + exp b))"
  have ra: "in_exp_range a" and rb: "in_exp_range b"
    using assms by (auto intro: in_exp_range_bounded)
  have "0 \<le> ?d" and "?d \<le> K"
    using assms(4) by (rule bt_delta_bounds)+
  then have "\<bar>a + ?d\<bar> \<le> B + K" and "\<bar>b - ?d\<bar> \<le> B + K"
    using assms(1,2) by linarith+
  then show ?thesis
    by (simp add: bt_update_in_range [OF ra rb])
qed

lemma update_theta_bounded:
  assumes step: "update_theta cfg th i j w = Inr th'"
    and all: "list_all (\<lambda>x. \<exists>a. x = Fin a \<and> \<bar>a\<bar> \<le> B) th"
    and "B \<le> 709" and "0 \<le> K_BT cfg"
  shows "length th' = length th
         \<and> list_all (\<lambda>x. \<exists>a. x = Fin a \<and> \<bar>a\<bar> \<le> B + K_BT cfg) th'"
proof -
  have i: "i < length th" and j: "j < length th"
    using step by (auto simp add: update_theta_def split: if_splits)
  have "\<exists>a. th ! i = Fin a \<and> \<bar>a\<bar> \<le> B" and "\<exists>b. th ! j = Fin b \<and> \<bar>b\<bar> \<le> B"
    using all i j by (simp_all add: list_all_length)
  then obtain a b where a: "th ! i = Fin a" "\<bar>a\<bar> \<le> B" and b: "th ! j = Fin b" "\<bar>b\<bar> \<le> B"
    by blast
  have old: "\<exists>c. th ! k = Fin c \<and> \<bar>c\<bar> \<le> B + K_BT cfg" if "k < length th" for k
    using all that assms(4) by (fastforce simp add: list_all_length)
  show ?thesis
  proof (cases w)
    case True
    obtain a' b' where u: "bt_update (Fin a) (Fin b) (Fin 1) (Fin (K_BT cfg)) = (Fin a', Fin b')"
      and ab: "\<bar>a'\<bar> \<le> B + K_BT cfg" "\<bar>b'\<bar> \<le> B + K_BT cfg"
      using bt_update_bounded [OF a(2) b(2) assms(3,4)] by blast
    have "th' = th[i := Fin a', j := Fin b']"
      using step True i j a(1) b(1) u by (simp add: update_theta_def)
    then show ?thesis
      using ab old i j by (auto simp add: list_all_length nth_list_update)
  next
    case False
    obtain b' a' where u: "bt_update (Fin b) (Fin a) (Fin 1) (Fin (K_BT cfg)) = (Fin b', Fin a')"
      and ab: "\<bar>b'\<bar> \<le> B + K_BT cfg" "\<bar>a'\<bar> \<le> B + K_BT cfg"
      using bt_update_bounded [OF b(2) a(2) assms(3,4)] by blast
    have "th' = th[j := Fin b', i := Fin a']"
      using step False i j a(1) b(1) u by (simp add: update_theta_def)
    then show ?thesis
      using ab old i j by (auto simp add: list_all_length nth_list_update)
  qed
qed

lemma length_target_trophies: "length (target_trophies cfg ppf th) = length th"
  by (simp add: target_trophies_def percentiles_def length_ranks Let_def)

lemma trophy_step_finite:
  assumes step: "trophy_step cfg targets tr p w = Inr tr'"
    and all: "list_all (\<lambda>x. \<exists>t. x = Fin t \<and> 0 \<le> t) tr"
    and fin: "\<And>k. k < length targets \<Longrightarrow> \<exists>g. targets ! k = Fin g"
    and nz: "FADE_WIDTH cfg \<noteq> 0"
  shows "length tr' = length tr \<and> list_all (\<lambda>x. \<exists>t. x = Fin t \<and> 0 \<le> t) tr'"
proof -
  have p: "p < length targets" "p < length tr"
    using step by (simp_all add: trophy_step_def split: if_splits)
  obtain g where g: "targets ! p = Fin g"
    using fin p(1) by blast
  have "\<exists>t. tr ! p = Fin t \<and> 0 \<le> t"
    using all p(2) by (simp add: list_all_length)
  then obtain t where t: "tr ! p = Fin t"
    by blast
  obtain x where eq: "tr' = tr[p := Fin (max 0 x)]"
    using step unfolding trophy_step_Fin [OF p g t nz] by blast
  have "\<exists>t'. tr' ! k = Fin t' \<and> 0 \<le> t'" if "k < length tr" for k
  proof (cases "k = p")
    case True
    then show ?thesis
      using p(2) by (simp add: eq)
  next
    case False
    then have "tr' ! k = tr ! k"
      by (simp add: eq)
    then show ?thesis
      using all that by (simp add: list_all_length)
  qed
  then show ?thesis
    by (simp add: eq list_all_length)
qed

lemma apply_outcome_ok:
  assumes step: "apply_outcome cfg ppf st i j w = Inr st'"
    and ok: "state_ok n B st"
    and "B \<le> 709" and "0 \<le> K_BT cfg" and nz: "FADE_WIDTH cfg \<noteq> 0"
  shows "state_ok n (B + K_BT cfg) st'"
proof -
  obtain th' where th: "update_theta cfg (st_theta st) i j w = Inr th'"
    using step by (cases "update_theta cfg (st_theta st) i j w")
      (simp_all add: apply_outcome_def Let_def split: if_splits)
  let ?tg = "target_trophies cfg ppf th'"
  obtain tr1 where t1: "trophy_step cfg ?tg (st_trophies st) i w = Inr tr1"
    using step th by (cases "trophy_step cfg ?tg (st_trophies st) i w")
      (simp_all add: apply_outcome_def Let_def split: if_splits)
  obtain tr2 where t2: "trophy_step cfg ?tg tr1 j (\<not> w) = Inr tr2"
    using step th t1 by (cases "trophy_step cfg ?tg tr1 j (\<not> w)")
      (simp_all add: apply_outcome_def Let_def split: if_splits)
  have st': "st_theta st' = th'" "st_trophies st' = tr2"
    using step th t1 t2 by (auto simp add: apply_outcome_def Let_def split: if_splits)
  have a: "length th' = length (st_theta st)
           \<and> list_all (\<lambda>x. \<exists>a. x = Fin a \<and> \<bar>a\<bar> \<le> B + K_BT cfg) th'"
    using th ok assms(3,4) by (intro update_theta_bounded) (simp_all add: state_ok_def)
  have fin: "\<exists>g. ?tg ! k = Fin g" if "k < length ?tg" for k
    using that by (simp add: length_target_trophies target_trophies_nth)
  have b: "length tr1 = length (st_trophies st)
           \<and> list_all (\<lambda>x. \<exists>t. x = Fin t \<and> 0 \<le> t) tr1"
    using t1 ok fin nz by (intro trophy_step_finite) (simp_all add: state_ok_def)
  have c: "length tr2 = length tr1 \<and> list_all (\<lambda>x. \<exists>t. x = Fin t \<and> 0 \<le> t) tr2"
    using t2 b fin nz by (intro trophy_step_finite) simp_all
  show ?thesis
    using a b c ok st' by (simp add: state_ok_def)
qed

lemma play_round_ok:
  assumes step: "play_round cfg ppf ts st d = Inr st'"
    and ok: "state_ok n B st"
    and "B \<le> 709" and "0 \<le> K_BT cfg" and nz: "FADE_WIDTH cfg \<noteq> 0"
  shows "state_ok n (B + K_BT cfg) st'"
proof -
  obtain j w where "apply_outcome cfg ppf st (draw_player d) j w = Inr st'"
    using step by (auto simp add: play_round_def Let_def split: sum.splits if_splits)
  then show ?thesis
    using assms(2-5) by (rule apply_outcome_ok)
qed

lemma bounded_mono:
  "list_all (\<lambda>x. \<exists>a. x = Fin a \<and> \<bar>a\<bar> \<le> B) xs \<Longrightarrow> B \<le> B' \<Longrightarrow>
   list_all (\<lambda>x. \<exists>a. x = Fin a \<and> \<bar>a\<bar> \<le> B') xs"
  by (induction xs) auto

lemma state_ok_mono: "state_ok n B st \<Longrightarrow> B \<le> B' \<Longrightarrow> state_ok n B' st"
  unfolding state_ok_def using bounded_mono by blast

lemma simulate_ok:
  assumes "simulate cfg ppf ts ds st = Inr st'"
    and "state_ok n B st"
    and "B + K_BT cfg * real (length ds) \<le> 709"
    and "0 \<le> K_BT cfg" and "FADE_WIDTH cfg \<noteq> 0"
  shows "state_ok n (B + K_BT cfg * real (length ds)) st'"
  using assms
proof (induction ds arbitrary: st B)
  case Nil
  then show ?case by simp
next
  case (Cons d ds)
  obtain st1 where r: "play_round cfg ppf ts st d = Inr st1"
    and s: "simulate cfg ppf ts ds st1 = Inr st'"
    using Cons.prems(1) by (cases "play_round cfg ppf ts st d") simp_all
  have len: "K_BT cfg * real (length (d # ds)) = K_BT cfg + K_BT cfg * real (length ds)"
    by (simp add: algebra_simps)
  have nn: "0 \<le> K_BT cfg * real (length ds)"
    using Cons.prems(4) by simp
  have B: "B \<le> 709"
    using Cons.prems(3,4) len nn by linarith
  have ok1: "state_ok n (B + K_BT cfg) st1"
    using r Cons.prems(2) B Cons.prems(4,5) by (rule play_round_ok)
  have le: "B + K_BT cfg + K_BT cfg * real (length ds) \<le> 709"
    using Cons.prems(3) len by linarith
  have "state_ok n (B + K_BT cfg + K_BT cfg * real (length ds)) st'"
    using s ok1 le Cons.prems(4,5) by (rule Cons.IH)
  moreover have "B + K_BT cfg + K_BT cfg * real (length ds)
                   = B + K_BT cfg * real (length (d # ds))"
    using len by linarith
  ultimately show ?case
    by simp
qed

lemma init_state_ok: "state_ok (players cfg) 0 (init_state cfg)"
  by (simp add: state_ok_def init_state_def list_all_length)

text \<open>
  A run of the script, with its own constants: after any number of rounds up to
  \<open>num_games\<close>, every strength is finite and within 500 of zero, inside the range
  of \<^verbatim>\<open>np.exp\<close>, and every trophy score is finite and not negative.
\<close>

lemma script_run_ok:
  assumes run: "simulate default_config ppf ts ds (init_state default_config) = Inr st"
    and len: "length ds \<le> num_games default_config"
  shows "state_ok 100 500 st"
proof -
  have n: "real (length ds) \<le> 10000"
    using len by (simp add: num_games_def default_config_def)
  have K: "K_BT default_config = 1 / 20" and F: "FADE_WIDTH default_config \<noteq> 0"
    and P: "players default_config = 100"
    by (simp_all add: default_config_def)
  have b: "0 + K_BT default_config * real (length ds) \<le> 500"
    using n by (simp add: K)
  have "state_ok (players default_config) 0 (init_state default_config)"
    by (rule init_state_ok)
  then have "state_ok 100 (0 + K_BT default_config * real (length ds)) st"
    using run b F unfolding P by (intro simulate_ok) (simp_all add: K)
  then show ?thesis
    using b by (rule state_ok_mono)
qed

text \<open>
  \<^verbatim>\<open>rng.choice\<close> returns an index below \<open>n\<close>, and never one whose probability is zero.
\<close>

lemma length_cumsum: "length (cumsum acc xs) = length xs"
  by (induction xs arbitrary: acc) simp_all

lemma last_cumsum: "xs \<noteq> [] \<Longrightarrow> last (cumsum acc xs) = foldl (+) acc xs"
proof (induction xs arbitrary: acc)
  case Nil
  then show ?case by simp
next
  case (Cons x xs)
  then show ?case
    by (cases xs) simp_all
qed

lemma takeWhile_stops:
  "xs \<noteq> [] \<Longrightarrow> \<not> P (last xs) \<Longrightarrow> length (takeWhile P xs) < length xs"
  by (induction xs) (auto split: if_splits)

lemma np_sum_near_one:
  assumes "s \<noteq> NaN" and "\<not> Fin ATOL < np_abs (s - Fin 1)"
  shows "\<exists>x. s = Fin x \<and> x \<noteq> 0"
proof (cases s)
  case (Fin x)
  have "\<bar>x - 1\<bar> \<le> ATOL"
    using assms(2) Fin by (simp add: minus_npfloat_def)
  moreover have "ATOL < 1"
    by (simp add: ATOL_def)
  ultimately have "x \<noteq> 0"
    by linarith
  then show ?thesis
    using Fin by simp
next
  case PInf
  then show ?thesis
    using assms(2) by (simp add: minus_npfloat_def)
next
  case NInf
  then show ?thesis
    using assms(2) by (simp add: minus_npfloat_def)
next
  case NaN
  then show ?thesis
    using assms(1) by simp
qed

lemma rng_choice_range:
  assumes r: "rng_choice n p u = Inr j" and u: "u < 1"
  shows "j < n"
proof -
  let ?cdf = "cumsum (Fin 0) p"
  let ?cdf' = "map (\<lambda>c. c / last ?cdf) ?cdf"
  have n: "n \<noteq> 0" "length p = n"
    and s: "np_sum p \<noteq> NaN" "\<not> Fin ATOL < np_abs (np_sum p - Fin 1)"
    and j: "j = searchsorted_right ?cdf' (Fin u)"
    using r by (simp_all add: rng_choice_def Let_def split: if_splits)
  have ne: "p \<noteq> []"
    using n by auto
  obtain x where x: "np_sum p = Fin x" "x \<noteq> 0"
    using np_sum_near_one [OF s] by blast
  have "last ?cdf = Fin x"
    using ne x(1) by (simp add: last_cumsum np_sum_def)
  moreover have "?cdf \<noteq> []"
    using ne by (cases p) simp_all
  ultimately have "last ?cdf' = Fin 1"
    using x(2) by (simp add: last_map)
  then have "\<not> last ?cdf' \<le> Fin u"
    using u by simp
  moreover have "?cdf' \<noteq> []"
    using \<open>?cdf \<noteq> []\<close> by simp
  ultimately have "length (takeWhile (\<lambda>c. c \<le> Fin u) ?cdf') < length ?cdf'"
    by (intro takeWhile_stops)
  then show ?thesis
    using n(2) by (simp add: j searchsorted_right_def length_cumsum)
qed

lemma choose_opponent_range:
  assumes "choose_opponent cfg i th u = Inr j" and "u < 1"
  shows "j < length th"
  using assms
  by (auto simp add: choose_opponent_def Let_def split: if_splits dest: rng_choice_range)

lemma rng_choice_error: "rng_choice n p u = Inl e \<Longrightarrow> e = ValueError"
  by (simp add: rng_choice_def Let_def split: if_splits)

lemma choose_opponent_error:
  "choose_opponent cfg i th u = Inl e \<Longrightarrow> i < length th \<Longrightarrow> e = ValueError"
  by (auto simp add: choose_opponent_def Let_def split: if_splits dest: rng_choice_error)

lemma foldl_plus_mem_NaN: "NaN \<in> set xs \<Longrightarrow> foldl (+) acc xs = NaN"
proof (induction xs arbitrary: acc)
  case Nil
  then show ?case by simp
next
  case (Cons x xs)
  show ?case
  proof (cases "x = NaN")
    case True
    then show ?thesis
      by (cases acc) (simp_all add: foldl_plus_NaN)
  next
    case False
    then show ?thesis
      using Cons by simp
  qed
qed

lemma plus_Fin_zero: "x + Fin 0 = x"
  by (cases x) simp_all

lemma zero_divide_Fin: "Fin 0 / s \<noteq> NaN \<Longrightarrow> Fin 0 / s = Fin 0"
  by (cases s) (simp_all split: if_splits)

lemma cumsum_nth:
  "k < length xs \<Longrightarrow> cumsum acc xs ! k = foldl (+) acc (take (Suc k) xs)"
proof (induction xs arbitrary: acc k)
  case Nil
  then show ?case by simp
next
  case (Cons x xs)
  then show ?case
    by (cases k) simp_all
qed

lemma cumsum_zero_entry:
  assumes "i < length p" and "p ! i = Fin 0"
  shows "cumsum (Fin 0) p ! i = (if i = 0 then Fin 0 else cumsum (Fin 0) p ! (i - 1))"
proof -
  have "cumsum (Fin 0) p ! i = foldl (+) (Fin 0) (take i p) + p ! i"
    using assms(1) by (simp add: cumsum_nth take_Suc_conv_app_nth)
  also have "\<dots> = foldl (+) (Fin 0) (take i p)"
    by (simp add: assms(2) plus_Fin_zero)
  finally have eq: "cumsum (Fin 0) p ! i = foldl (+) (Fin 0) (take i p)" .
  show ?thesis
  proof (cases i)
    case 0
    then show ?thesis
      using eq by simp
  next
    case (Suc k)
    then have "cumsum (Fin 0) p ! k = foldl (+) (Fin 0) (take i p)"
      using assms(1) by (simp add: cumsum_nth)
    then show ?thesis
      using eq Suc by simp
  qed
qed

lemma takeWhile_before:
  "k < length (takeWhile P xs) \<Longrightarrow> P (xs ! k)"
  by (metis nth_mem set_takeWhileD takeWhile_nth)

lemma rng_choice_skips_zero:
  assumes r: "rng_choice n p u = Inr j" and u: "0 \<le> u" "u < 1"
    and i: "i < n" and z: "p ! i = Fin 0"
  shows "j \<noteq> i"
proof
  assume ji: "j = i"
  let ?cdf = "cumsum (Fin 0) p"
  let ?cdf' = "map (\<lambda>c. c / last ?cdf) ?cdf"
  let ?P = "\<lambda>c. c \<le> Fin u"
  have n: "n \<noteq> 0" "length p = n"
    and s: "np_sum p \<noteq> NaN" "\<not> Fin ATOL < np_abs (np_sum p - Fin 1)"
    and j: "j = length (takeWhile ?P ?cdf')"
    using r by (simp_all add: rng_choice_def searchsorted_right_def Let_def split: if_splits)
  have ne: "p \<noteq> []"
    using n by auto
  obtain x where x: "np_sum p = Fin x" "x \<noteq> 0"
    using np_sum_near_one [OF s] by blast
  have last: "last ?cdf = Fin x"
    using ne x(1) by (simp add: last_cumsum np_sum_def)
  have len: "length ?cdf' = n"
    by (simp add: length_cumsum n)
  have "j < length ?cdf'"
    using ji i len by simp
  then have stop: "\<not> ?P (?cdf' ! i)"
    unfolding j using ji j nth_length_takeWhile by metis
  have zero: "?cdf ! i = (if i = 0 then Fin 0 else ?cdf ! (i - 1))"
    using i n(2) z by (intro cumsum_zero_entry) simp_all
  show False
  proof (cases "i = 0")
    case True
    then have "?cdf' ! i = Fin 0"
      using zero i n(2) x(2) by (simp add: length_cumsum last)
    then show False
      using stop u(1) by simp
  next
    case False
    then have "i - 1 < length (takeWhile ?P ?cdf')"
      using ji j by simp
    then have "?P (?cdf' ! (i - 1))"
      by (rule takeWhile_before)
    moreover have "?cdf' ! (i - 1) = ?cdf' ! i"
      using False zero i n(2) by (simp add: length_cumsum)
    ultimately show False
      using stop by simp
  qed
qed

lemma choose_opponent_not_self:
  assumes c: "choose_opponent cfg i th u = Inr j" and u: "0 \<le> u" "u < 1"
  shows "j \<noteq> i"
proof -
  let ?w = "weights cfg i th"
  let ?p = "map (\<lambda>p. p / np_sum ?w) ?w"
  have i: "i < length th" and r: "rng_choice (length th) ?p u = Inr j"
    using c by (simp_all add: choose_opponent_def Let_def split: if_splits)
  have "np_sum ?p \<noteq> NaN"
    using r by (simp add: rng_choice_def split: if_splits)
  then have "NaN \<notin> set ?p"
    using foldl_plus_mem_NaN [of ?p "Fin 0"] by (auto simp add: np_sum_def)
  moreover have "?p ! i \<in> set ?p"
    using i by (simp add: length_weights)
  ultimately have "?p ! i \<noteq> NaN"
    by metis
  moreover have "?w ! i = Fin 0"
    using i by (simp add: weights_def Let_def)
  ultimately have "?p ! i = Fin 0"
    using i by (simp add: length_weights zero_divide_Fin)
  then show ?thesis
    using r u i by (intro rng_choice_skips_zero) simp_all
qed

lemma update_theta_total:
  "i < length th \<Longrightarrow> j < length th \<Longrightarrow>
   \<exists>th'. update_theta cfg th i j w = Inr th' \<and> length th' = length th"
  by (simp add: update_theta_def split: prod.splits)

lemma trophy_step_total:
  "p < length tg \<Longrightarrow> p < length tr \<Longrightarrow>
   \<exists>tr'. trophy_step cfg tg tr p w = Inr tr' \<and> length tr' = length tr"
  by (simp add: trophy_step_def Let_def)

lemma apply_outcome_total:
  assumes "i < n" and "j < n"
    and "length (st_theta st) = n" and "length (st_games st) = n"
    and "length (st_trophies st) = n"
  shows "\<exists>st'. apply_outcome cfg ppf st i j w = Inr st'"
proof -
  obtain th' where th: "update_theta cfg (st_theta st) i j w = Inr th'" "length th' = n"
    using update_theta_total [of i "st_theta st" j cfg w] assms(1-3) by auto
  let ?tg = "target_trophies cfg ppf th'"
  have tg: "length ?tg = n"
    by (simp add: length_target_trophies th(2))
  obtain tr1 where t1: "trophy_step cfg ?tg (st_trophies st) i w = Inr tr1" "length tr1 = n"
    using trophy_step_total [of i ?tg "st_trophies st" cfg w] assms(1,5) tg by auto
  obtain tr2 where t2: "trophy_step cfg ?tg tr1 j (\<not> w) = Inr tr2"
    using trophy_step_total [of j ?tg tr1 cfg "\<not> w"] assms(2) tg t1(2) by auto
  show ?thesis
    using assms(1,2,4) th(1) t1(1) t2 by (simp add: apply_outcome_def Let_def)
qed

text \<open>
  On arrays of \<open>players\<close> entries and draws the generator can give, a round never
  raises \<open>IndexError\<close>: it returns the next state, or \<open>choose_opponent\<close> fails with
  \<open>ValueError\<close>. The opponent is never the participant itself.
\<close>

lemma play_round_total:
  assumes "valid_draws cfg d"
    and "length (st_theta st) = players cfg" and "length (st_games st) = players cfg"
    and "length (st_trophies st) = players cfg" and "length ts = players cfg"
  shows "play_round cfg ppf ts st d = Inl ValueError
         \<or> (\<exists>st'. play_round cfg ppf ts st d = Inr st')"
proof (cases "choose_opponent cfg (draw_player d) (st_theta st) (draw_choice d)")
  case (Inl e)
  have "draw_player d < length (st_theta st)"
    using assms(1,2) by (simp add: valid_draws_def)
  then have "e = ValueError"
    using Inl by (intro choose_opponent_error)
  then show ?thesis
    using Inl by (simp add: play_round_def)
next
  case (Inr j)
  have i: "draw_player d < players cfg" and u: "draw_choice d < 1"
    using assms(1) by (simp_all add: valid_draws_def)
  have j: "j < players cfg"
    using choose_opponent_range [OF Inr u] assms(2) by simp
  show ?thesis
    using Inr i j assms(5) apply_outcome_total [OF i j assms(2-4)]
    by (simp add: play_round_def Let_def)
qed

lemma play_round_example:
  "\<exists>st'. play_round (default_config\<lparr>players := 2\<rparr>) ppf [Fin 0, Fin 0]
            (init_state (default_config\<lparr>players := 2\<rparr>))
            \<lparr>draw_player = 0, draw_choice = 1 / 2, draw_outcome = 1 / 4\<rparr> = Inr st'
         \<and> st_theta st' = [Fin (1 / 40), Fin (- 1 / 40)]
         \<and> st_games st' = [Fin 1, Fin 1]"
proof -
  define cfg where "cfg = default_config\<lparr>players := 2\<rparr>"
  define st where "st = init_state cfg"
  have fields: "players cfg = 2" "tightness cfg = 2" "K_BT cfg = 1 / 20"
    "SIGMA_MATCH cfg = 2 / 5"
    by (simp_all add: cfg_def default_config_def)
  have st: "st_theta st = [Fin 0, Fin 0]" "st_games st = [Fin 0, Fin 0]"
    "st_trophies st = [Fin 0, Fin 0]"
    by (simp_all add: st_def init_state_def fields numeral_2_eq_2)
  have c: "choose_opponent cfg 0 [Fin 0, Fin 0] (1 / 2) = Inr 1"
    by (simp add: choose_opponent_pair_first fields EXP_UNDERFLOW_def)
  have w: "Fin (1 / 4) < Fin 1 / (Fin 1 + np_exp (Fin (- tightness cfg) * (Fin 0 - Fin 0)))"
    by (simp add: fields minus_npfloat_def EXP_UNDERFLOW_def EXP_OVERFLOW_def)
  have r: "in_exp_range 0"
    by (simp add: in_exp_range_def EXP_UNDERFLOW_def EXP_OVERFLOW_def)
  have t: "update_theta cfg [Fin 0, Fin 0] 0 1 True = Inr [Fin (1 / 40), Fin (- 1 / 40)]"
    by (simp add: update_theta_def bt_update_in_range [OF r r] fields)
  let ?tg = "target_trophies cfg ppf [Fin (1 / 40), Fin (- 1 / 40)]"
  have l0: "0 < length ?tg" and l1: "1 < length ?tg"
    by (simp_all add: length_target_trophies)
  have "\<exists>tr'. trophy_step cfg ?tg [Fin 0, Fin 0] 0 True = Inr tr'
          \<and> length tr' = length [Fin 0, Fin 0 :: npfloat]"
    using l0 by (intro trophy_step_total) simp_all
  then obtain tr1 where t1: "trophy_step cfg ?tg [Fin 0, Fin 0] 0 True = Inr tr1"
    "length tr1 = length [Fin 0, Fin 0 :: npfloat]"
    by blast
  have "\<exists>tr'. trophy_step cfg ?tg tr1 1 False = Inr tr' \<and> length tr' = length tr1"
    using l1 t1(2) by (intro trophy_step_total) simp_all
  then obtain tr2 where t2: "trophy_step cfg ?tg tr1 1 False = Inr tr2"
    by blast
  have "apply_outcome cfg ppf st 0 1 True =
          Inr \<lparr>st_theta = [Fin (1 / 40), Fin (- 1 / 40)], st_games = [Fin 1, Fin 1],
               st_trophies = tr2\<rparr>"
    using t t1(1) t2 by (simp add: apply_outcome_def st Let_def)
  then have "play_round cfg ppf [Fin 0, Fin 0] st
               \<lparr>draw_player = 0, draw_choice = 1 / 2, draw_outcome = 1 / 4\<rparr> =
             Inr \<lparr>st_theta = [Fin (1 / 40), Fin (- 1 / 40)], st_games = [Fin 1, Fin 1],
                  st_trophies = tr2\<rparr>"
    using c w by (simp add: play_round_def st Let_def)
  then show ?thesis
    unfolding cfg_def st_def by simp
qed

lemma state_ok_in_range:
  assumes "state_ok n B st" and "B \<le> 709" and "k < n"
  shows "\<exists>a. st_theta st ! k = Fin a \<and> in_exp_range a"
proof -
  have "\<exists>a. st_theta st ! k = Fin a \<and> \<bar>a\<bar> \<le> B"
    using assms(1,3) by (simp add: state_ok_def list_all_length)
  then show ?thesis
    using assms(2) in_exp_range_bounded by blast
qed

text \<open>
  So in every round of a run of the script the two strengths that \<open>update_theta\<close> reads
  are finite and inside the range of \<^verbatim>\<open>np.exp\<close>, and belong to two different
  participants.
\<close>

lemma round_preconditions:
  assumes c: "choose_opponent cfg (draw_player d) (st_theta st) (draw_choice d) = Inr j"
    and d: "valid_draws cfg d"
    and ok: "state_ok (players cfg) B st" and B: "B \<le> 709"
  shows "draw_player d < length (st_theta st) \<and> j < length (st_theta st)
         \<and> j \<noteq> draw_player d
         \<and> (\<exists>a b. st_theta st ! draw_player d = Fin a \<and> st_theta st ! j = Fin b
                \<and> in_exp_range a \<and> in_exp_range b)"
proof -
  have len: "length (st_theta st) = players cfg"
    using ok by (simp add: state_ok_def)
  have i: "draw_player d < players cfg" and u: "0 \<le> draw_choice d" "draw_choice d < 1"
    using d by (simp_all add: valid_draws_def)
  have j: "j < players cfg"
    using choose_opponent_range [OF c u(2)] len by simp
  have ne: "j \<noteq> draw_player d"
    using c u by (rule choose_opponent_not_self)
  show ?thesis
    using i j ne len state_ok_in_range [OF ok B i] state_ok_in_range [OF ok B j]
    by auto
qed

end
